theory Spec2Isabelle
  imports Complex_Main
begin

section \<open>Python primitives used by the retrieval core\<close>

text \<open>
  Strings are \<open>char\<close> lists. \<open>str.split()\<close> without an argument and \<open>str.strip()\<close>
  treat as whitespace every character for which \<open>str.isspace\<close> holds; on the ASCII range
  these are TAB, LF, VT, FF, CR, the four separators FS, GS, RS, US, and the blank.
\<close>

definition py_isspace :: "char \<Rightarrow> bool" where
  "py_isspace c =
     (c = CHR 0x09 \<or> c = CHR 0x0A \<or> c = CHR 0x0B \<or> c = CHR 0x0C \<or> c = CHR 0x0D \<or>
      c = CHR 0x1C \<or> c = CHR 0x1D \<or> c = CHR 0x1E \<or> c = CHR 0x1F \<or> c = CHR 0x20)"

text \<open>
  \<open>text.split()\<close>: runs of whitespace separate the words, and no empty word is produced.
  The first argument is the word being read.
\<close>

fun split_acc :: "string \<Rightarrow> string \<Rightarrow> string list" where
  "split_acc cur [] = (if cur = [] then [] else [cur])"
| "split_acc cur (c # cs) =
     (if py_isspace c
      then (if cur = [] then split_acc [] cs else cur # split_acc [] cs)
      else split_acc (cur @ [c]) cs)"

definition py_split :: "string \<Rightarrow> string list" where
  "py_split s = split_acc [] s"

text \<open>\<open>text.split('\n\n')\<close>: split at each non-overlapping blank-line separator, keeping empty pieces.\<close>

fun split_nn_acc :: "string \<Rightarrow> string \<Rightarrow> string list" where
  "split_nn_acc cur [] = [cur]"
| "split_nn_acc cur [c] = [cur @ [c]]"
| "split_nn_acc cur (c # d # cs) =
     (if c = CHR 0x0A \<and> d = CHR 0x0A then cur # split_nn_acc [] cs
      else split_nn_acc (cur @ [c]) (d # cs))"

definition py_split_nn :: "string \<Rightarrow> string list" where
  "py_split_nn s = split_nn_acc [] s"

definition py_strip :: "string \<Rightarrow> string" where
  "py_strip s = rev (dropWhile py_isspace (rev (dropWhile py_isspace s)))"

text \<open>\<open>sep.join(parts)\<close>.\<close>

fun py_join :: "string \<Rightarrow> string list \<Rightarrow> string" where
  "py_join sep [] = []"
| "py_join sep [x] = x"
| "py_join sep (x # y # ys) = x @ sep @ py_join sep (y # ys)"

text \<open>
  \<open>xs[i:j]\<close>: a negative index counts from the end, and both bounds are clamped to the list.
\<close>

definition slice_index :: "nat \<Rightarrow> int \<Rightarrow> nat" where
  "slice_index n i = (if i < 0 then nat (max 0 (int n + i)) else min n (nat i))"

definition py_slice :: "'a list \<Rightarrow> int \<Rightarrow> int \<Rightarrow> 'a list" where
  "py_slice xs i j =
     (let a = slice_index (length xs) i; b = slice_index (length xs) j
      in take (b - a) (drop a xs))"

text \<open>\<open>xs[:j]\<close>.\<close>

definition py_prefix :: "'a list \<Rightarrow> int \<Rightarrow> 'a list" where
  "py_prefix xs j = take (slice_index (length xs) j) xs"

text \<open>\<open>int(x)\<close> on a number: truncation towards zero.\<close>

definition py_int :: "real \<Rightarrow> int" where
  "py_int x = (if 0 \<le> x then \<lfloor>x\<rfloor> else \<lceil>x\<rceil>)"

text \<open>The decimal numeral printed by an f-string for a non-negative counter.\<close>

fun str_nat :: "nat \<Rightarrow> string" where
  "str_nat n =
     (if n < 10 then [char_of (48 + n)]
      else str_nat (n div 10) @ [char_of (48 + n mod 10)])"

declare str_nat.simps [simp del]

section \<open>Token estimator (chunking.py)\<close>

text \<open>
  \<open>TokenCounter.estimate_tokens\<close>: \<open>max(1, int(words / 0.75))\<close>. The quotient is taken in the
  reals; the double-precision quotient truncates to the same integer for every word count
  below \<open>2^50\<close>, since \<open>4 * words / 3\<close> is an integer or lies a third away from one.
\<close>

definition estimate_tokens :: "string \<Rightarrow> int" where
  "estimate_tokens text =
     (let words = int (length (py_split text))
      in max 1 (py_int (real_of_int words / 0.75)))"

definition count_tokens_in_chunk :: "string \<Rightarrow> int" where
  "count_tokens_in_chunk text = estimate_tokens text"

text \<open>
  The estimator as the specification words it, with rounding to the nearest integer in
  place of truncation. It is used only for comparison with \<open>estimate_tokens\<close>.
  (\<open>4 * words / 3\<close> is never half-way between two integers, so the tie-breaking rule of the
  rounding function plays no role.)
\<close>

definition estimate_rounded :: "string \<Rightarrow> int" where
  "estimate_rounded text =
     (let word_count = int (length (py_split text))
      in max 1 (round (real_of_int word_count / 0.75)))"

section \<open>Document chunker (chunking.py)\<close>

record ChunkConfig =
  chunk_size :: int
  overlap :: int
  strategy :: string
  min_chunk_size :: int

type_synonym metadata = "(string \<times> string) list"

text \<open>
  A chunk dictionary. The keys \<open>id\<close>, \<open>text\<close>, \<open>token_count\<close> and \<open>metadata\<close> are always
  present; \<open>start_idx\<close> and \<open>end_idx\<close> are set by the fixed strategy only.
\<close>

record chunk =
  c_id :: string
  c_text :: string
  c_start_idx :: "int option"
  c_end_idx :: "int option"
  c_token_count :: int
  c_metadata :: metadata

text \<open>\<open>metadata or {}\<close>.\<close>

definition metadata_or_empty :: "metadata option \<Rightarrow> metadata" where
  "metadata_or_empty md = (case md of None \<Rightarrow> [] | Some m \<Rightarrow> m)"

definition words_per_chunk :: "ChunkConfig \<Rightarrow> int" where
  "words_per_chunk cfg = py_int (real_of_int (chunk_size cfg) * 0.75)"

definition overlap_words :: "ChunkConfig \<Rightarrow> int" where
  "overlap_words cfg = py_int (real_of_int (overlap cfg) * 0.75)"

text \<open>
  One pass through the body of the \<open>while\<close> loop of \<open>_chunk_fixed_size\<close>, entered with
  \<open>start_idx < len(words)\<close>. \<open>Inr\<close> is the \<open>break\<close> with the chunks collected so far,
  \<open>Inl\<close> carries the variables into the next test of the loop condition.
\<close>

definition fixed_body ::
  "ChunkConfig \<Rightarrow> metadata option \<Rightarrow> string list \<Rightarrow> int \<Rightarrow> nat \<Rightarrow> chunk list
   \<Rightarrow> (int \<times> nat \<times> chunk list) + chunk list" where
  "fixed_body cfg md words start_idx chunk_id chunks =
     (let end_idx = min (start_idx + words_per_chunk cfg) (int (length words));
          chunk_text = py_join '' '' (py_slice words start_idx end_idx);
          keep = (count_tokens_in_chunk chunk_text \<ge> min_chunk_size cfg);
          chunks' = (if keep
                     then chunks @ [\<lparr>c_id = ''chunk_'' @ str_nat chunk_id,
                                      c_text = chunk_text,
                                      c_start_idx = Some start_idx,
                                      c_end_idx = Some end_idx,
                                      c_token_count = count_tokens_in_chunk chunk_text,
                                      c_metadata = metadata_or_empty md\<rparr>]
                     else chunks);
          chunk_id' = (if keep then chunk_id + 1 else chunk_id);
          next_start_idx = end_idx - overlap_words cfg
      in if next_start_idx \<ge> start_idx \<and> end_idx = int (length words)
         then Inr chunks'
         else Inl (max next_start_idx (start_idx + 1), chunk_id', chunks'))"

function fixed_loop ::
  "ChunkConfig \<Rightarrow> metadata option \<Rightarrow> string list \<Rightarrow> int \<Rightarrow> nat \<Rightarrow> chunk list \<Rightarrow> chunk list" where
  "fixed_loop cfg md words start_idx chunk_id chunks =
     (if start_idx < int (length words)
      then (case fixed_body cfg md words start_idx chunk_id chunks of
              Inr finished \<Rightarrow> finished
            | Inl (start_idx', chunk_id', chunks') \<Rightarrow>
                fixed_loop cfg md words start_idx' chunk_id' chunks')
      else chunks)"
  by pat_completeness auto
termination
proof (relation "measure (\<lambda>(cfg, md, words, start_idx, chunk_id, chunks).
                            nat (int (length words) - start_idx))")
  show "wf (measure (\<lambda>(cfg, md, words, start_idx, chunk_id, chunks).
                            nat (int (length words) - start_idx)))"
    by simp
next
  fix cfg :: ChunkConfig and md :: "metadata option" and words :: "string list"
    and start_idx :: int and chunk_id :: nat and chunks :: "chunk list"
    and x :: "int \<times> nat \<times> chunk list" and start_idx' :: int and y :: "nat \<times> chunk list"
    and chunk_id' :: nat and chunks' :: "chunk list"
  assume lt: "start_idx < int (length words)"
    and body: "fixed_body cfg md words start_idx chunk_id chunks = Inl x"
    and x: "(start_idx', y) = x" and y: "(chunk_id', chunks') = y"
  from body x have "start_idx + 1 \<le> start_idx'"
    by (auto simp: fixed_body_def Let_def split: if_splits)
  with lt show "((cfg, md, words, start_idx', chunk_id', chunks'),
                 (cfg, md, words, start_idx, chunk_id, chunks))
                \<in> measure (\<lambda>(cfg, md, words, start_idx, chunk_id, chunks).
                            nat (int (length words) - start_idx))"
    by simp
qed

declare fixed_loop.simps [simp del]

text \<open>
  The same loop with a bound on the number of passes through its body: \<open>None\<close> when the
  loop condition still holds after \<open>fuel\<close> passes.
\<close>

fun fixed_run ::
  "nat \<Rightarrow> ChunkConfig \<Rightarrow> metadata option \<Rightarrow> string list \<Rightarrow> int \<Rightarrow> nat \<Rightarrow> chunk list
   \<Rightarrow> chunk list option" where
  "fixed_run 0 cfg md words start_idx chunk_id chunks =
     (if start_idx < int (length words) then None else Some chunks)"
| "fixed_run (Suc fuel) cfg md words start_idx chunk_id chunks =
     (if start_idx < int (length words)
      then (case fixed_body cfg md words start_idx chunk_id chunks of
              Inr finished \<Rightarrow> Some finished
            | Inl (start_idx', chunk_id', chunks') \<Rightarrow>
                fixed_run fuel cfg md words start_idx' chunk_id' chunks')
      else Some chunks)"

definition chunk_fixed_size :: "ChunkConfig \<Rightarrow> string \<Rightarrow> metadata option \<Rightarrow> chunk list" where
  "chunk_fixed_size cfg text md = fixed_loop cfg md (py_split text) 0 0 []"

text \<open>The chunk that \<open>_chunk_paragraph\<close> builds from the paragraphs it has accumulated.\<close>

definition paragraph_chunk :: "nat \<Rightarrow> string list \<Rightarrow> int \<Rightarrow> metadata option \<Rightarrow> chunk" where
  "paragraph_chunk chunk_id current_chunk current_tokens md =
     \<lparr>c_id = ''chunk_'' @ str_nat chunk_id,
      c_text = py_join [CHR 0x0A, CHR 0x0A] current_chunk,
      c_start_idx = None,
      c_end_idx = None,
      c_token_count = current_tokens,
      c_metadata = metadata_or_empty md\<rparr>"

text \<open>The sub-chunks of a long paragraph are renumbered and appended.\<close>

fun splice :: "chunk list \<Rightarrow> nat \<Rightarrow> chunk list \<Rightarrow> chunk list \<times> nat" where
  "splice chunks chunk_id [] = (chunks, chunk_id)"
| "splice chunks chunk_id (sub_chunk # sub_chunks) =
     splice (chunks @ [sub_chunk\<lparr>c_id := ''chunk_'' @ str_nat chunk_id\<rparr>]) (chunk_id + 1) sub_chunks"

text \<open>
  The body of the \<open>for para in paragraphs\<close> loop; the state is
  \<open>(chunks, current_chunk, current_tokens, chunk_id)\<close>.
\<close>

definition paragraph_body ::
  "ChunkConfig \<Rightarrow> metadata option \<Rightarrow> chunk list \<times> string list \<times> int \<times> nat \<Rightarrow> string
   \<Rightarrow> chunk list \<times> string list \<times> int \<times> nat" where
  "paragraph_body cfg md st para0 =
     (case st of (chunks, current_chunk, current_tokens, chunk_id) \<Rightarrow>
      let para = py_strip para0
      in if para = [] then st
         else
          let para_tokens = count_tokens_in_chunk para
          in if para_tokens > chunk_size cfg
             then
               (let flushed = (current_chunk \<noteq> []);
                    chunks1 = (if flushed
                               then chunks @ [paragraph_chunk chunk_id current_chunk current_tokens md]
                               else chunks);
                    chunk_id1 = (if flushed then chunk_id + 1 else chunk_id);
                    current_chunk1 = (if flushed then [] else current_chunk);
                    current_tokens1 = (if flushed then 0 else current_tokens);
                    sub_chunks = chunk_fixed_size cfg para md
                in case splice chunks1 chunk_id1 sub_chunks of
                     (chunks2, chunk_id2) \<Rightarrow> (chunks2, current_chunk1, current_tokens1, chunk_id2))
             else if current_tokens + para_tokens \<le> chunk_size cfg
             then (chunks, current_chunk @ [para], current_tokens + para_tokens, chunk_id)
             else
               (if current_chunk \<noteq> []
                then (chunks @ [paragraph_chunk chunk_id current_chunk current_tokens md],
                      [para], para_tokens, chunk_id + 1)
                else (chunks, [para], para_tokens, chunk_id)))"

definition chunk_paragraph :: "ChunkConfig \<Rightarrow> string \<Rightarrow> metadata option \<Rightarrow> chunk list" where
  "chunk_paragraph cfg text md =
     (let paragraphs = py_split_nn text
      in case foldl (paragraph_body cfg md) ([], [], 0, 0) paragraphs of
           (chunks, current_chunk, current_tokens, chunk_id) \<Rightarrow>
             if current_chunk \<noteq> []
             then chunks @ [paragraph_chunk chunk_id current_chunk current_tokens md]
             else chunks)"

section \<open>Exceptions\<close>

text \<open>
  The instances of Python's \<open>Exception\<close> that the modelled code meets, each with its
  message. An operation that may raise returns \<open>py_exception + 'a\<close>, with \<open>Inl\<close> for the
  exception raised.
\<close>

datatype py_exception =
    ValueError string
  | RuntimeError string
  | ZeroDivisionError

fun str_exception :: "py_exception \<Rightarrow> string" where
  "str_exception (ValueError m) = m"
| "str_exception (RuntimeError m) = m"
| "str_exception ZeroDivisionError = ''division by zero''"

section \<open>Embedding generator (embedding_generator.py)\<close>

type_synonym embedding = "real list"

text \<open>
  The sentence-transformer model is outside the repository: the generator carries what its
  \<open>encode\<close> does on one query, an embedding or an exception.
\<close>

record EmbeddingGenerator =
  embed_query :: "string \<Rightarrow> py_exception + embedding"

text \<open>
  \<open>np.dot\<close> of two one-dimensional arrays raises \<open>ValueError\<close> when their lengths differ.
  Vectors are lists of reals: the rounding of the floating-point operations is not modelled.
\<close>

definition np_dot :: "embedding \<Rightarrow> embedding \<Rightarrow> py_exception + real" where
  "np_dot vec1 vec2 =
     (if length vec1 = length vec2
      then Inr (\<Sum>(a, b) \<leftarrow> zip vec1 vec2. a * b)
      else Inl (ValueError ''shapes not aligned''))"

definition np_linalg_norm :: "embedding \<Rightarrow> real" where
  "np_linalg_norm vec = sqrt (\<Sum>a \<leftarrow> vec. a * a)"

text \<open>A division, with the use of a zero divisor made visible as an error value.\<close>

definition checked_div :: "real \<Rightarrow> real \<Rightarrow> py_exception + real" where
  "checked_div a b = (if b = 0 then Inl ZeroDivisionError else Inr (a / b))"

definition cosine_similarity :: "embedding \<Rightarrow> embedding \<Rightarrow> py_exception + real" where
  "cosine_similarity vec1 vec2 =
     (case np_dot vec1 vec2 of
        Inl e \<Rightarrow> Inl e
      | Inr dot_product \<Rightarrow>
          let norm_a = np_linalg_norm vec1;
              norm_b = np_linalg_norm vec2
          in if norm_a = 0 \<or> norm_b = 0 then Inr 0
             else checked_div dot_product (norm_a * norm_b))"

section \<open>Vector database wrapper (chromadb_handler.py)\<close>

text \<open>
  The answer of \<open>collection.query\<close> for the single query embedding: the three parallel
  lists \<open>results['documents'][0]\<close>, \<open>results['metadatas'][0]\<close>, \<open>results['distances'][0]\<close>.
\<close>

record query_result =
  documents :: "string list"
  metadatas :: "metadata list"
  distances :: "real list"

text \<open>
  A ChromaDB collection is outside the repository; it is represented by what its \<open>query\<close>
  does with the query embedding, \<open>n_results\<close> and the \<open>where\<close> filter on \<open>charity_name\<close>.
  The client is the finite map from the names of the existing collections to them, and
  its \<open>get_collection\<close> raises for a name it does not hold.
\<close>

type_synonym chroma_collection =
  "embedding \<Rightarrow> int \<Rightarrow> string option \<Rightarrow> py_exception + query_result"

record ChromaVectorDB =
  client :: "string \<Rightarrow> chroma_collection option"
  collection :: "chroma_collection option"

definition get_collection :: "ChromaVectorDB \<Rightarrow> string \<Rightarrow> py_exception + ChromaVectorDB" where
  "get_collection db name =
     (case client db name of
        None \<Rightarrow> Inl (ValueError (''Collection '' @ name @ '' does not exist.''))
      | Some c \<Rightarrow> Inr (db\<lparr>collection := Some c\<rparr>))"

text \<open>A formatted search result: the keys \<open>rank\<close>, \<open>text\<close>, \<open>similarity\<close>, \<open>metadata\<close>.\<close>

record retrieved =
  rank :: int
  r_text :: string
  similarity :: real
  r_metadata :: metadata

text \<open>The loop over \<open>enumerate(zip(documents, metadatas, distances))\<close>, from index \<open>i\<close> on.\<close>

fun format_results :: "real \<Rightarrow> nat \<Rightarrow> (string \<times> metadata \<times> real) list \<Rightarrow> retrieved list" where
  "format_results threshold i [] = []"
| "format_results threshold i ((doc, meta, distance) # rest) =
     (let sim = 1 - distance
      in (if sim \<ge> threshold
          then [\<lparr>rank = int i + 1, r_text = doc, similarity = sim, r_metadata = meta\<rparr>]
          else [])
         @ format_results threshold (i + 1) rest)"

text \<open>An empty string counts as false in \<open>if name:\<close>, like \<open>None\<close>.\<close>

definition truthy :: "string option \<Rightarrow> bool" where
  "truthy name = (case name of None \<Rightarrow> False | Some n \<Rightarrow> n \<noteq> [])"

definition search ::
  "ChromaVectorDB \<Rightarrow> embedding \<Rightarrow> int \<Rightarrow> string option \<Rightarrow> real \<Rightarrow> retrieved list" where
  "search db query_embedding n_results name threshold =
     (case collection db of
        None \<Rightarrow> []
      | Some coll \<Rightarrow>
          (let where_filter = (if truthy name then name else None)
           in (case coll query_embedding n_results where_filter of
                 Inl e \<Rightarrow> []
               | Inr results \<Rightarrow>
                   if documents results \<noteq> []
                   then format_results threshold 0
                          (zip (documents results) (zip (metadatas results) (distances results)))
                   else [])))"

section \<open>Semantic retriever (retriever.py)\<close>

record RetrievalConfig =
  top_k :: int
  similarity_threshold :: real
  rerank :: bool
  include_metadata :: bool
  debug :: bool

datatype log_value =
    LogStr string
  | LogNone
  | LogInt int
  | LogBool bool
  | LogFloat real

type_synonym log_entry = "string \<Rightarrow> log_value option"

record SemanticRetriever =
  embedding_generator :: EmbeddingGenerator
  vector_db :: ChromaVectorDB
  config :: RetrievalConfig
  retrieval_logs :: "log_entry list"

text \<open>\<open>top_k or self.config.top_k\<close>: the configured value replaces \<open>None\<close> and also 0.\<close>

definition requested_k :: "RetrievalConfig \<Rightarrow> int option \<Rightarrow> int" where
  "requested_k cfg top_k_arg =
     (case top_k_arg of
        None \<Rightarrow> top_k cfg
      | Some k \<Rightarrow> if k = 0 then top_k cfg else k)"

text \<open>\<open>charity_name.lower().replace(" ", "_")\<close>, on ASCII letters.\<close>

definition lower_char :: "char \<Rightarrow> char" where
  "lower_char c =
     (let n = (of_char c :: nat) in if 65 \<le> n \<and> n \<le> 90 then char_of (n + 32) else c)"

definition collection_name :: "string \<Rightarrow> string" where
  "collection_name charity_name =
     map (\<lambda>c. if c = CHR '' '' then CHR ''_'' else c) (map lower_char charity_name)"

text \<open>\<open>sorted(results, key=lambda x: x['similarity'], reverse=True)\<close>: a stable sort.\<close>

definition rerank_results :: "retrieved list \<Rightarrow> embedding \<Rightarrow> retrieved list" where
  "rerank_results results query_embedding = sort_key (\<lambda>x. - similarity x) results"

definition log_str_opt :: "string option \<Rightarrow> log_value" where
  "log_str_opt s = (case s of None \<Rightarrow> LogNone | Some v \<Rightarrow> LogStr v)"

text \<open>
  The part of \<open>retrieve\<close> that follows a successful query embedding and a resolved
  collection: search, threshold filter, rerank, truncation and the debug trace.
\<close>

definition retrieve_ranked ::
  "SemanticRetriever \<Rightarrow> ChromaVectorDB \<Rightarrow> log_entry \<Rightarrow> embedding \<Rightarrow> string option \<Rightarrow> int
   \<Rightarrow> retrieved list \<times> SemanticRetriever" where
  "retrieve_ranked r db log_entry query_embedding charity_name k =
     (let cfg = config r;
          results = search db query_embedding (k * 2) charity_name 0;
          log1 = log_entry(''intial_results_count'' \<mapsto> LogInt (int (length results)));
          filtered_results = filter (\<lambda>x. similarity x \<ge> similarity_threshold cfg) results;
          log2 = log1(''after_threshold_filter'' \<mapsto> LogInt (int (length filtered_results)),
                      ''threshold_used'' \<mapsto> LogFloat (similarity_threshold cfg));
          reranking = (rerank cfg \<and> length filtered_results > 1);
          filtered_results' = (if reranking
                               then rerank_results filtered_results query_embedding
                               else filtered_results);
          log3 = (if reranking then log2(''reranked'' \<mapsto> LogBool True) else log2);
          final_results = py_prefix filtered_results' k;
          log4 = log3(''final_results_count'' \<mapsto> LogInt (int (length final_results)),
                      ''status'' \<mapsto> LogStr ''success'')
      in (final_results,
          r\<lparr>vector_db := db,
            retrieval_logs := (if debug cfg then retrieval_logs r @ [log4]
                               else retrieval_logs r)\<rparr>))"

text \<open>
  \<open>if charity_name: ... self.vector_db.get_collection(collection_name)\<close>: the database
  with the charity's collection selected, or the exception of \<open>get_collection\<close>.
\<close>

definition resolve_collection ::
  "ChromaVectorDB \<Rightarrow> string option \<Rightarrow> py_exception + ChromaVectorDB" where
  "resolve_collection db charity_name =
     (case charity_name of
        None \<Rightarrow> Inr db
      | Some name \<Rightarrow>
          if name = [] then Inr db else get_collection db (collection_name name))"

text \<open>
  \<open>SemanticRetriever.retrieve\<close>. The result is the value returned or the exception that
  reaches the caller, together with the retriever after the call. The handler
  \<open>except Exception\<close> encloses the whole body; the inner bare \<open>except\<close> around
  \<open>get_collection\<close> returns the empty list at once, leaving the trace unrecorded.
\<close>

definition retrieve ::
  "SemanticRetriever \<Rightarrow> string \<Rightarrow> string option \<Rightarrow> int option
   \<Rightarrow> (py_exception + retrieved list) \<times> SemanticRetriever" where
  "retrieve r query charity_name top_k_arg =
     (let cfg = config r;
          log_entry = [''query'' \<mapsto> LogStr query,
                       ''charity_name'' \<mapsto> log_str_opt charity_name,
                       ''top_k_requested'' \<mapsto> LogInt (requested_k cfg top_k_arg)]
      in case embed_query (embedding_generator r) query of
           Inl e \<Rightarrow>
             (Inr [],
              r\<lparr>retrieval_logs :=
                   (if debug cfg
                    then retrieval_logs r
                           @ [log_entry(''status'' \<mapsto> LogStr ''error'',
                                        ''error'' \<mapsto> LogStr (str_exception e))]
                    else retrieval_logs r)\<rparr>)
         | Inr query_embedding \<Rightarrow>
             (let log0 = log_entry(''embedding_generated'' \<mapsto> LogBool True);
                  k = requested_k cfg top_k_arg
              in (case resolve_collection (vector_db r) charity_name of
                    Inl e \<Rightarrow> (Inr [], r)
                  | Inr db \<Rightarrow>
                      (case retrieve_ranked r db log0 query_embedding charity_name k of
                         (final_results, r') \<Rightarrow> (Inr final_results, r')))))"

section \<open>Context builder (retriever.py)\<close>

text \<open>\<open>len(chunk_text.split()) // 0.75\<close>: the floor of the quotient, without the floor at 1.\<close>

definition chunk_tokens :: "retrieved \<Rightarrow> int" where
  "chunk_tokens chunk = \<lfloor>real (length (py_split (r_text chunk))) / 0.75\<rfloor>"

definition metadata_get :: "metadata \<Rightarrow> string \<Rightarrow> string \<Rightarrow> string" where
  "metadata_get md key dflt = (case map_of md key of None \<Rightarrow> dflt | Some v \<Rightarrow> v)"

definition format_chunk :: "bool \<Rightarrow> retrieved \<Rightarrow> string" where
  "format_chunk include_sources chunk =
     (if include_sources
      then r_text chunk @ [CHR 0x0A] @ ''[Source: ''
             @ metadata_get (r_metadata chunk) ''charity_name'' ''Unknown'' @ '']'' @ [CHR 0x0A]
      else r_text chunk @ [CHR 0x0A])"

text \<open>
  The \<open>for\<close> loop of \<open>build_context\<close> over the remaining chunks, with \<open>context_parts\<close> and
  \<open>token_count\<close> as they stand; the result is their final value.
\<close>

fun context_loop ::
  "int \<Rightarrow> bool \<Rightarrow> retrieved list \<Rightarrow> string list \<Rightarrow> int \<Rightarrow> string list \<times> int" where
  "context_loop max_tokens include_sources [] context_parts token_count =
     (context_parts, token_count)"
| "context_loop max_tokens include_sources (chunk # rest) context_parts token_count =
     (if token_count + chunk_tokens chunk > max_tokens
      then (context_parts, token_count)
      else context_loop max_tokens include_sources rest
             (context_parts @ [format_chunk include_sources chunk])
             (token_count + chunk_tokens chunk))"

text \<open>The separator \<open>"\n\n---\n\n"\<close>.\<close>

definition context_separator :: string where
  "context_separator = [CHR 0x0A, CHR 0x0A] @ ''---'' @ [CHR 0x0A, CHR 0x0A]"

definition build_context :: "retrieved list \<Rightarrow> int \<Rightarrow> bool \<Rightarrow> string" where
  "build_context chunks max_tokens include_sources =
     (if chunks = [] then ''No relevant information found.''
      else py_join context_separator
             (fst (context_loop max_tokens include_sources chunks [] 0)))"

section \<open>Notions used in the statements\<close>

text \<open>The list a call hands back, empty if the call raised.\<close>

definition result_list :: "py_exception + 'a list \<Rightarrow> 'a list" where
  "result_list x = (case x of Inl e \<Rightarrow> [] | Inr xs \<Rightarrow> xs)"

text \<open>The reranking stage of \<open>retrieve\<close>: it runs when enabled and more than one result is left.\<close>

definition ranked :: "RetrievalConfig \<Rightarrow> retrieved list \<Rightarrow> embedding \<Rightarrow> retrieved list" where
  "ranked cfg xs qe = (if rerank cfg \<and> length xs > 1 then rerank_results xs qe else xs)"

text \<open>
  The limit as the specification names it: the per-call argument when given, otherwise the
  configured default.
\<close>

definition stated_k :: "RetrievalConfig \<Rightarrow> int option \<Rightarrow> int" where
  "stated_k cfg top_k_arg = (case top_k_arg of None \<Rightarrow> top_k cfg | Some k \<Rightarrow> k)"

text \<open>A chunk whose token count stays within the chunk size, or is the estimator's minimum 1.\<close>

definition in_budget :: "ChunkConfig \<Rightarrow> chunk \<Rightarrow> bool" where
  "in_budget cfg c = (c_token_count c \<le> max 1 (chunk_size cfg))"

text \<open>
  What the paragraph loop maintains: the chunks emitted so far are within the budget and
  the running total does not exceed the chunk size.
\<close>

definition paragraph_inv :: "ChunkConfig \<Rightarrow> chunk list \<times> string list \<times> int \<times> nat \<Rightarrow> bool" where
  "paragraph_inv cfg st =
     (case st of (chunks, current_chunk, current_tokens, chunk_id) \<Rightarrow>
        (\<forall>c \<in> set chunks. in_budget cfg c) \<and> current_tokens \<le> chunk_size cfg)"

subsection \<open>A small index for concrete runs\<close>

text \<open>
  A collection of three documents that answers with at most \<open>n_results\<close> of them and
  rejects a non-positive \<open>n_results\<close>, a database holding it under one name with that
  collection selected, and an embedding model that fails on the empty query.
\<close>

definition demo_collection :: chroma_collection where
  "demo_collection query_embedding n_results where_filter =
     (if n_results \<le> 0 then Inl (ValueError ''n_results must be positive'')
      else Inr \<lparr>documents = take (nat n_results) [''alpha'', ''beta gamma'', ''delta''],
                metadatas = take (nat n_results) [[], [], []],
                distances = take (nat n_results) [0.5, 1.4, 0.1]\<rparr>)"

definition demo_db :: ChromaVectorDB where
  "demo_db = \<lparr>client = [''red_cross'' \<mapsto> demo_collection], collection = Some demo_collection\<rparr>"

definition demo_generator :: EmbeddingGenerator where
  "demo_generator = \<lparr>embed_query = (\<lambda>q. if q = [] then Inl (RuntimeError ''no text'') else Inr [1, 0])\<rparr>"

definition demo_retriever :: "int \<Rightarrow> real \<Rightarrow> SemanticRetriever" where
  "demo_retriever k th =
     \<lparr>embedding_generator = demo_generator,
      vector_db = demo_db,
      config = \<lparr>top_k = k, similarity_threshold = th, rerank = True,
                include_metadata = True, debug = True\<rparr>,
      retrieval_logs = []\<rparr>"

subsection \<open>Concrete documents and results\<close>

definition demo_chunk_config :: "int \<Rightarrow> int \<Rightarrow> int \<Rightarrow> ChunkConfig" where
  "demo_chunk_config sz ov mn =
     \<lparr>chunk_size = sz, overlap = ov, strategy = ''fixed'', min_chunk_size = mn\<rparr>"

definition demo_document :: string where
  "demo_document =
     ''one two'' @ [CHR 0x0A, CHR 0x0A] @ ''a b c d e f g h'' @ [CHR 0x0A, CHR 0x0A] @ ''three''"

definition demo_results :: "retrieved list" where
  "demo_results =
     [\<lparr>rank = 1, r_text = ''we feed people'', similarity = 0.9,
       r_metadata = [(''charity_name'', ''Food Bank'')]\<rparr>,
      \<lparr>rank = 2, r_text = ''founded in a small town long ago'', similarity = 0.8, r_metadata = []\<rparr>,
      \<lparr>rank = 3, r_text = ''donate'', similarity = 0.7, r_metadata = []\<rparr>]"

section \<open>Facts about the primitives\<close>

lemma py_int_nonneg: "0 \<le> x \<Longrightarrow> py_int x = \<lfloor>x\<rfloor>"
  by (simp add: py_int_def)

lemma div_three_quarters: "real_of_int w / 0.75 = real_of_int (4 * w) / real_of_int 3"
  by simp

lemma floor_div_three_quarters: "\<lfloor>real_of_int w / 0.75\<rfloor> = (4 * w) div 3"
  unfolding div_three_quarters by (rule floor_divide_of_int_eq)

lemma py_int_div_three_quarters: "0 \<le> w \<Longrightarrow> py_int (real_of_int w / 0.75) = (4 * w) div 3"
proof -
  assume "0 \<le> w"
  then have "0 \<le> real_of_int w / 0.75" by simp
  then show ?thesis
    by (simp only: py_int_nonneg floor_div_three_quarters)
qed

lemma estimate_tokens_div: "estimate_tokens text = max 1 ((4 * int (length (py_split text))) div 3)"
  by (simp only: estimate_tokens_def Let_def py_int_div_three_quarters [OF of_nat_0_le_iff])

section \<open>Facts about search and retrieval\<close>

lemma format_results_threshold:
  "x \<in> set (format_results threshold i hits) \<Longrightarrow> threshold \<le> similarity x"
  by (induction hits arbitrary: i) (auto simp: Let_def split: if_splits)

lemma search_threshold:
  "x \<in> set (search db qe n name threshold) \<Longrightarrow> threshold \<le> similarity x"
  by (auto simp: search_def Let_def format_results_threshold split: option.splits sum.splits if_splits)

lemma set_py_prefix: "set (py_prefix xs k) \<subseteq> set xs"
  by (simp add: py_prefix_def set_take_subset)

lemma length_py_prefix: "length (py_prefix xs k) \<le> length xs"
  by (simp add: py_prefix_def)

lemma length_py_prefix_nonneg: "0 \<le> k \<Longrightarrow> int (length (py_prefix xs k)) \<le> k"
  by (simp add: py_prefix_def slice_index_def)

lemma in_set_py_prefix: "x \<in> set (py_prefix xs k) \<Longrightarrow> x \<in> set xs"
  using set_py_prefix by fastforce

lemma set_rerank_results [simp]: "set (rerank_results xs qe) = set xs"
  by (simp add: rerank_results_def)

lemma length_rerank_results [simp]: "length (rerank_results xs qe) = length xs"
  by (simp add: rerank_results_def)

lemma fst_retrieve_ranked:
  "fst (retrieve_ranked r db lg qe name k) =
     py_prefix (ranked (config r)
        (filter (\<lambda>x. similarity x \<ge> similarity_threshold (config r)) (search db qe (k * 2) name 0)) qe) k"
  by (simp add: retrieve_ranked_def Let_def ranked_def)

lemma set_ranked [simp]: "set (ranked cfg xs qe) = set xs"
  by (simp add: ranked_def)

lemma length_ranked [simp]: "length (ranked cfg xs qe) = length xs"
  by (simp add: ranked_def)

lemma retrieve_cases:
  "fst (retrieve r query charity_name top_k_arg) =
     (case embed_query (embedding_generator r) query of
        Inl e \<Rightarrow> Inr []
      | Inr qe \<Rightarrow>
          (case resolve_collection (vector_db r) charity_name of
             Inl e \<Rightarrow> Inr []
           | Inr db \<Rightarrow> Inr (fst (retrieve_ranked r db
                  ([''query'' \<mapsto> LogStr query,
                       ''charity_name'' \<mapsto> log_str_opt charity_name,
                       ''top_k_requested'' \<mapsto> LogInt (requested_k (config r) top_k_arg), ''embedding_generated'' \<mapsto> LogBool True])
                  qe charity_name (requested_k (config r) top_k_arg)))))"
  by (simp add: retrieve_def Let_def split: sum.splits prod.splits)

lemma retrieve_results_subset:
  assumes "fst (retrieve r query charity_name top_k_arg) = Inr results" and "x \<in> set results"
  shows "\<exists>qe db. embed_query (embedding_generator r) query = Inr qe
          \<and> resolve_collection (vector_db r) charity_name = Inr db
          \<and> x \<in> set (filter (\<lambda>x. similarity x \<ge> similarity_threshold (config r))
                       (search db qe (requested_k (config r) top_k_arg * 2) charity_name 0))"
proof (cases "embed_query (embedding_generator r) query")
  case (Inl e)
  with assms show ?thesis by (simp add: retrieve_cases)
next
  case (Inr qe)
  note qe = this
  show ?thesis
  proof (cases "resolve_collection (vector_db r) charity_name")
    case (Inl e)
    with assms qe show ?thesis by (simp add: retrieve_cases)
  next
    case (Inr db)
    with assms qe have "x \<in> set (py_prefix (ranked (config r)
        (filter (\<lambda>x. similarity x \<ge> similarity_threshold (config r))
           (search db qe (requested_k (config r) top_k_arg * 2) charity_name 0)) qe)
        (requested_k (config r) top_k_arg))"
      by (simp add: retrieve_cases fst_retrieve_ranked)
    then have "x \<in> set (filter (\<lambda>x. similarity x \<ge> similarity_threshold (config r))
           (search db qe (requested_k (config r) top_k_arg * 2) charity_name 0))"
      by (auto dest: in_set_py_prefix)
    with qe Inr show ?thesis by blast
  qed
qed

lemma demo_search: "n \<ge> 3 \<Longrightarrow> search demo_db qe n None th = format_results th 0 [(''alpha'', [], 0.5), (''beta gamma'', [], 1.4), (''delta'', [], 0.1)]"
  by (simp add: search_def demo_db_def demo_collection_def truthy_def Let_def)

lemma format_results_distance:
  "x \<in> set (format_results threshold i hits)
   \<Longrightarrow> \<exists>h \<in> set hits. similarity x = 1 - snd (snd h)"
proof (induction hits arbitrary: i)
  case Nil
  then show ?case by simp
next
  case (Cons h hits)
  obtain doc meta distance where h: "h = (doc, meta, distance)" by (cases h) auto
  from Cons.prems consider
      (here) "similarity x = 1 - distance"
    | (later) "x \<in> set (format_results threshold (i + 1) hits)"
    by (auto simp: h Let_def split: if_splits)
  then show ?case
  proof cases
    case here
    then show ?thesis by (simp add: h)
  next
    case later
    from Cons.IH [OF later] show ?thesis by auto
  qed
qed

lemma search_distance:
  assumes "x \<in> set (search db qe n name threshold)"
  shows "\<exists>coll res. collection db = Some coll
           \<and> coll qe n (if truthy name then name else None) = Inr res
           \<and> (\<exists>d \<in> set (distances res). similarity x = 1 - d)"
proof (cases "collection db")
  case None
  with assms show ?thesis by (simp add: search_def)
next
  case (Some coll)
  note c = this
  show ?thesis
  proof (cases "coll qe n (if truthy name then name else None)")
    case (Inl e)
    with assms c show ?thesis by (simp add: search_def Let_def)
  next
    case (Inr res)
    with assms c have "x \<in> set (format_results threshold 0
                        (zip (documents res) (zip (metadatas res) (distances res))))"
      by (simp add: search_def Let_def split: if_splits)
    from format_results_distance [OF this]
    obtain h where h: "h \<in> set (zip (documents res) (zip (metadatas res) (distances res)))"
      and s: "similarity x = 1 - snd (snd h)" by auto
    from h have "snd h \<in> set (zip (metadatas res) (distances res))"
      by (metis in_set_zipE prod.collapse)
    then have "snd (snd h) \<in> set (distances res)"
      by (metis in_set_zipE prod.collapse)
    with c Inr s show ?thesis by blast
  qed
qed

section \<open>Facts about splitting and slicing\<close>

lemma split_acc_word:
  "\<forall>c \<in> set w. \<not> py_isspace c \<Longrightarrow> split_acc cur (w @ rest) = split_acc (cur @ w) rest"
  by (induction w arbitrary: cur) simp_all

lemma split_acc_blank:
  "cur \<noteq> [] \<Longrightarrow> split_acc cur (CHR '' '' # rest) = cur # split_acc [] rest"
  by (simp add: py_isspace_def)

lemma split_acc_clean:
  "w \<in> set (split_acc cur s) \<Longrightarrow> \<forall>c \<in> set cur. \<not> py_isspace c
   \<Longrightarrow> w \<noteq> [] \<and> (\<forall>c \<in> set w. \<not> py_isspace c)"
proof (induction s arbitrary: cur)
  case Nil
  then show ?case by (simp split: if_splits)
next
  case (Cons a s)
  show ?case
  proof (cases "py_isspace a")
    case True
    with Cons.prems have "w = cur \<and> cur \<noteq> [] \<or> w \<in> set (split_acc [] s)"
      by (auto split: if_splits)
    then show ?thesis
    proof
      assume "w = cur \<and> cur \<noteq> []"
      with Cons.prems(2) show ?thesis by simp
    next
      assume "w \<in> set (split_acc [] s)"
      then show ?thesis by (rule Cons.IH) simp
    qed
  next
    case False
    with Cons.prems have "w \<in> set (split_acc (cur @ [a]) s)" by simp
    then show ?thesis by (rule Cons.IH) (use False Cons.prems(2) in auto)
  qed
qed

lemma py_split_clean:
  "w \<in> set (py_split s) \<Longrightarrow> w \<noteq> [] \<and> (\<forall>c \<in> set w. \<not> py_isspace c)"
  using split_acc_clean [of w "[]" s] by (simp add: py_split_def)

lemma py_split_join:
  "\<forall>w \<in> set ws. w \<noteq> [] \<and> (\<forall>c \<in> set w. \<not> py_isspace c)
   \<Longrightarrow> py_split (py_join '' '' ws) = ws"
proof (induction "'' ''" ws rule: py_join.induct)
  case 1
  then show ?case by (simp add: py_split_def)
next
  case (2 x)
  then have "split_acc [] (x @ []) = split_acc ([] @ x) []"
    by (intro split_acc_word) simp
  with 2 show ?case by (simp add: py_split_def)
next
  case (3 x y ys)
  from 3 have x: "x \<noteq> []" "\<forall>c \<in> set x. \<not> py_isspace c" by simp_all
  from 3 have ih: "py_split (py_join '' '' (y # ys)) = y # ys" by simp
  have "split_acc [] (x @ (CHR '' '' # py_join '' '' (y # ys)))
          = split_acc ([] @ x) (CHR '' '' # py_join '' '' (y # ys))"
    using x(2) by (rule split_acc_word)
  also have "\<dots> = x # split_acc [] (py_join '' '' (y # ys))"
    using x(1) by (simp add: py_isspace_def)
  finally show ?case using ih by (simp add: py_split_def)
qed

lemma set_py_slice: "set (py_slice xs i j) \<subseteq> set xs"
proof -
  have "set (py_slice xs i j) \<subseteq> set (drop (slice_index (length xs) i) xs)"
    by (simp add: py_slice_def Let_def set_take_subset)
  also have "\<dots> \<subseteq> set xs" by (rule set_drop_subset)
  finally show ?thesis .
qed

lemma length_py_slice:
  "0 \<le> i \<Longrightarrow> i \<le> j \<Longrightarrow> int (length (py_slice xs i j)) \<le> j - i"
  by (auto simp: py_slice_def Let_def slice_index_def)

section \<open>Facts about the fixed strategy\<close>

lemma fixed_body_advances:
  "fixed_body cfg md words start_idx chunk_id chunks = Inl (start_idx', chunk_id', chunks')
   \<Longrightarrow> start_idx + 1 \<le> start_idx'"
  by (auto simp: fixed_body_def Let_def split: if_splits)

lemma fixed_body_breaks:
  "fixed_body cfg md words start_idx chunk_id chunks = Inr finished
   \<Longrightarrow> min (start_idx + words_per_chunk cfg) (int (length words)) = int (length words)"
  by (auto simp: fixed_body_def Let_def split: if_splits)

lemma fixed_run_enough:
  "nat (int (length words) - start_idx) \<le> fuel
   \<Longrightarrow> fixed_run fuel cfg md words start_idx chunk_id chunks
       = Some (fixed_loop cfg md words start_idx chunk_id chunks)"
proof (induction fuel arbitrary: start_idx chunk_id chunks)
  case 0
  then have "\<not> start_idx < int (length words)" by simp
  then show ?case by (simp add: fixed_loop.simps)
next
  case (Suc fuel)
  show ?case
  proof (cases "start_idx < int (length words)")
    case False
    then show ?thesis by (simp add: fixed_loop.simps)
  next
    case True
    show ?thesis
    proof (cases "fixed_body cfg md words start_idx chunk_id chunks")
      case (Inr finished)
      with True show ?thesis by (simp add: fixed_loop.simps [of cfg md words start_idx])
    next
      case (Inl st)
      obtain s' c' ch' where st: "st = (s', c', ch')" by (cases st) auto
      from Inl st have "start_idx + 1 \<le> s'" by (auto dest: fixed_body_advances)
      with Suc.prems have "nat (int (length words) - s') \<le> fuel" by simp
      from Suc.IH [OF this] Inl st True show ?thesis
        by (simp add: fixed_loop.simps [of cfg md words start_idx])
    qed
  qed
qed

lemma words_per_chunk_nonneg:
  "0 \<le> chunk_size cfg \<Longrightarrow> words_per_chunk cfg = (3 * chunk_size cfg) div 4"
proof -
  assume a: "0 \<le> chunk_size cfg"
  have "real_of_int (chunk_size cfg) * 0.75 = real_of_int (3 * chunk_size cfg) / real_of_int 4"
    by simp
  then have "\<lfloor>real_of_int (chunk_size cfg) * 0.75\<rfloor> = (3 * chunk_size cfg) div 4"
    by (simp only: floor_divide_of_int_eq)
  moreover from a have "0 \<le> real_of_int (chunk_size cfg) * 0.75" by simp
  ultimately show ?thesis by (simp only: words_per_chunk_def py_int_nonneg)
qed

lemma window_tokens:
  assumes cs: "0 \<le> chunk_size cfg"
    and clean: "\<forall>w \<in> set words. w \<noteq> [] \<and> (\<forall>c \<in> set w. \<not> py_isspace c)"
    and s: "0 \<le> start_idx" "start_idx < int (length words)"
  shows "count_tokens_in_chunk
           (py_join '' '' (py_slice words start_idx
              (min (start_idx + words_per_chunk cfg) (int (length words)))))
         \<le> max 1 (chunk_size cfg)"
proof -
  let ?e = "min (start_idx + words_per_chunk cfg) (int (length words))"
  let ?sl = "py_slice words start_idx ?e"
  have w: "words_per_chunk cfg = (3 * chunk_size cfg) div 4"
    using cs by (rule words_per_chunk_nonneg)
  with cs have w0: "0 \<le> words_per_chunk cfg" by simp
  with s have "start_idx \<le> ?e" by simp
  from length_py_slice [OF s(1) this, where xs = words] have len: "int (length ?sl) \<le> words_per_chunk cfg"
    by simp
  from clean set_py_slice [of words start_idx ?e]
  have "\<forall>w \<in> set ?sl. w \<noteq> [] \<and> (\<forall>c \<in> set w. \<not> py_isspace c)" by blast
  then have "py_split (py_join '' '' ?sl) = ?sl" by (rule py_split_join)
  then have "count_tokens_in_chunk (py_join '' '' ?sl) = max 1 ((4 * int (length ?sl)) div 3)"
    by (simp add: count_tokens_in_chunk_def estimate_tokens_div)
  moreover from len w have "(4 * int (length ?sl)) div 3 \<le> chunk_size cfg" by linarith
  ultimately show ?thesis by simp
qed

lemma fixed_body_within:
  assumes cs: "0 \<le> chunk_size cfg"
    and clean: "\<forall>w \<in> set words. w \<noteq> [] \<and> (\<forall>c \<in> set w. \<not> py_isspace c)"
    and s: "0 \<le> start_idx" "start_idx < int (length words)"
    and inv: "\<forall>c \<in> set chunks. in_budget cfg c \<and> min_chunk_size cfg \<le> c_token_count c"
  shows "case fixed_body cfg md words start_idx chunk_id chunks of
           Inr finished \<Rightarrow> \<forall>c \<in> set finished. in_budget cfg c \<and> min_chunk_size cfg \<le> c_token_count c
         | Inl (start_idx', chunk_id', chunks') \<Rightarrow>
             0 \<le> start_idx' \<and> (\<forall>c \<in> set chunks'. in_budget cfg c \<and> min_chunk_size cfg \<le> c_token_count c)"
  using window_tokens [OF cs clean s] inv s
  by (auto simp: fixed_body_def Let_def in_budget_def)

lemma fixed_loop_within:
  assumes cs: "0 \<le> chunk_size cfg"
    and clean: "\<forall>w \<in> set words. w \<noteq> [] \<and> (\<forall>c \<in> set w. \<not> py_isspace c)"
  shows "0 \<le> start_idx
     \<Longrightarrow> \<forall>c \<in> set chunks. in_budget cfg c \<and> min_chunk_size cfg \<le> c_token_count c
     \<Longrightarrow> \<forall>c \<in> set (fixed_loop cfg md words start_idx chunk_id chunks).
           in_budget cfg c \<and> min_chunk_size cfg \<le> c_token_count c"
  using cs clean
proof (induction cfg md words start_idx chunk_id chunks rule: fixed_loop.induct)
  case (1 cfg md words start_idx chunk_id chunks)
  show ?case
  proof (cases "start_idx < int (length words)")
    case False
    with "1.prems" show ?thesis by (simp add: fixed_loop.simps)
  next
    case True
    note b = fixed_body_within [OF "1.prems"(3) "1.prems"(4) "1.prems"(1) True "1.prems"(2),
        of md chunk_id]
    show ?thesis
    proof (cases "fixed_body cfg md words start_idx chunk_id chunks")
      case (Inr finished)
      with b True show ?thesis by (simp add: fixed_loop.simps [of cfg md words start_idx])
    next
      case (Inl st)
      obtain s' c' ch' where st: "st = (s', c', ch')" by (cases st) auto
      from b Inl st have s0: "0 \<le> s'"
        and inv: "\<forall>c \<in> set ch'. in_budget cfg c \<and> min_chunk_size cfg \<le> c_token_count c"
        by simp_all
      have "\<forall>c \<in> set (fixed_loop cfg md words s' c' ch').
           in_budget cfg c \<and> min_chunk_size cfg \<le> c_token_count c"
        using "1.IH" [OF True Inl st [symmetric] refl s0 inv "1.prems"(3) "1.prems"(4)] .
      with True Inl st show ?thesis by (simp add: fixed_loop.simps [of cfg md words start_idx])
    qed
  qed
qed

lemma chunk_fixed_size_within:
  "0 \<le> chunk_size cfg
   \<Longrightarrow> \<forall>c \<in> set (chunk_fixed_size cfg text md).
         in_budget cfg c \<and> min_chunk_size cfg \<le> c_token_count c"
  unfolding chunk_fixed_size_def
  by (rule fixed_loop_within) (simp_all add: py_split_clean)

section \<open>Facts about the paragraph strategy\<close>

lemma splice_token_counts:
  "map c_token_count (fst (splice chunks chunk_id sub_chunks))
     = map c_token_count chunks @ map c_token_count sub_chunks"
  by (induction sub_chunks arbitrary: chunks chunk_id) simp_all

lemma splice_texts:
  "map c_text (fst (splice chunks chunk_id sub_chunks))
     = map c_text chunks @ map c_text sub_chunks"
  by (induction sub_chunks arbitrary: chunks chunk_id) simp_all

lemma in_budget_token_counts:
  "(\<forall>c \<in> set chunks. in_budget cfg c)
     = (\<forall>t \<in> set (map c_token_count chunks). t \<le> max 1 (chunk_size cfg))"
  by (simp add: in_budget_def)

lemma paragraph_chunk_in_budget:
  "current_tokens \<le> chunk_size cfg
   \<Longrightarrow> in_budget cfg (paragraph_chunk chunk_id current_chunk current_tokens md)"
  by (simp add: in_budget_def paragraph_chunk_def)

lemma paragraph_body_long:
  assumes "py_strip para0 \<noteq> []" and "count_tokens_in_chunk (py_strip para0) > chunk_size cfg"
  shows "paragraph_body cfg md (chunks, cur, tok, cid) para0
           = (fst (splice (if cur \<noteq> [] then chunks @ [paragraph_chunk cid cur tok md] else chunks)
                     (if cur \<noteq> [] then cid + 1 else cid)
                     (chunk_fixed_size cfg (py_strip para0) md)),
              (if cur \<noteq> [] then [] else cur),
              (if cur \<noteq> [] then 0 else tok),
              snd (splice (if cur \<noteq> [] then chunks @ [paragraph_chunk cid cur tok md] else chunks)
                     (if cur \<noteq> [] then cid + 1 else cid)
                     (chunk_fixed_size cfg (py_strip para0) md)))"
  using assms by (simp add: paragraph_body_def Let_def split: prod.splits)

lemma paragraph_body_inv:
  assumes cs: "0 \<le> chunk_size cfg" and inv: "paragraph_inv cfg st"
  shows "paragraph_inv cfg (paragraph_body cfg md st para0)"
proof -
  obtain chunks cur tok cid where st: "st = (chunks, cur, tok, cid)" by (cases st) auto
  from inv st have c: "\<forall>c \<in> set chunks. in_budget cfg c" and t: "tok \<le> chunk_size cfg"
    by (simp_all add: paragraph_inv_def)
  let ?para = "py_strip para0"
  show ?thesis
  proof (cases "?para = []")
    case True
    with inv st show ?thesis by (simp add: paragraph_body_def Let_def)
  next
    case False
    note ne = this
    show ?thesis
    proof (cases "count_tokens_in_chunk ?para > chunk_size cfg")
      case True
      let ?chunks1 = "if cur \<noteq> [] then chunks @ [paragraph_chunk cid cur tok md] else chunks"
      let ?cid1 = "if cur \<noteq> [] then cid + 1 else cid"
      let ?sub = "chunk_fixed_size cfg ?para md"
      have c1: "\<forall>c \<in> set ?chunks1. in_budget cfg c"
        using c t by (simp add: paragraph_chunk_in_budget)
      have "\<forall>c \<in> set ?sub. in_budget cfg c"
        using chunk_fixed_size_within [OF cs] by blast
      with c1 have "\<forall>t \<in> set (map c_token_count (fst (splice ?chunks1 ?cid1 ?sub))).
                       t \<le> max 1 (chunk_size cfg)"
        unfolding splice_token_counts by (auto simp: in_budget_def)
      then have c2: "\<forall>c \<in> set (fst (splice ?chunks1 ?cid1 ?sub)). in_budget cfg c"
        by (simp only: in_budget_token_counts)
      have "paragraph_body cfg md st para0
              = (fst (splice ?chunks1 ?cid1 ?sub),
                 (if cur \<noteq> [] then [] else cur),
                 (if cur \<noteq> [] then 0 else tok),
                 snd (splice ?chunks1 ?cid1 ?sub))"
        using ne True by (simp add: paragraph_body_def Let_def st split: prod.splits)
      with c2 t cs show ?thesis by (simp add: paragraph_inv_def)
    next
      case False
      with ne c t show ?thesis
        by (simp add: paragraph_body_def Let_def st paragraph_inv_def paragraph_chunk_in_budget)
    qed
  qed
qed

lemma paragraph_fold_inv:
  "0 \<le> chunk_size cfg \<Longrightarrow> paragraph_inv cfg st
   \<Longrightarrow> paragraph_inv cfg (foldl (paragraph_body cfg md) st paragraphs)"
  by (induction paragraphs arbitrary: st) (simp_all add: paragraph_body_inv)

lemma chunk_paragraph_within:
  assumes "0 \<le> chunk_size cfg"
  shows "\<forall>c \<in> set (chunk_paragraph cfg text md). in_budget cfg c"
proof -
  have "paragraph_inv cfg ([], [], 0, 0)"
    using assms by (simp add: paragraph_inv_def)
  from paragraph_fold_inv [OF assms this]
  have inv: "paragraph_inv cfg (foldl (paragraph_body cfg md) ([], [], 0, 0) (py_split_nn text))" .
  obtain chunks cur tok cid
    where st: "foldl (paragraph_body cfg md) ([], [], 0, 0) (py_split_nn text)
                 = (chunks, cur, tok, cid)"
    by (cases "foldl (paragraph_body cfg md) ([], [], 0, 0) (py_split_nn text)") auto
  from inv show ?thesis
    by (auto simp: chunk_paragraph_def Let_def st paragraph_inv_def paragraph_chunk_in_budget)
qed

lemma paragraph_body_texts:
  "map c_text (fst (paragraph_body cfg md (chunks, cur, tok, cid) para0)) =
     (if py_strip para0 = [] then map c_text chunks
      else if count_tokens_in_chunk (py_strip para0) > chunk_size cfg
      then map c_text chunks
             @ (if cur \<noteq> [] then [py_join [CHR 0x0A, CHR 0x0A] cur] else [])
             @ map c_text (chunk_fixed_size cfg (py_strip para0) md)
      else if tok + count_tokens_in_chunk (py_strip para0) \<le> chunk_size cfg
      then map c_text chunks
      else map c_text chunks @ (if cur \<noteq> [] then [py_join [CHR 0x0A, CHR 0x0A] cur] else []))"
proof (cases "py_strip para0 \<noteq> [] \<and> count_tokens_in_chunk (py_strip para0) > chunk_size cfg")
  case True
  then show ?thesis
    by (simp add: paragraph_body_long splice_texts paragraph_chunk_def)
next
  case False
  then show ?thesis
    by (auto simp: paragraph_body_def Let_def paragraph_chunk_def)
qed

lemma paragraph_body_keeps:
  "set (map c_text (fst st)) \<subseteq> set (map c_text (fst (paragraph_body cfg md st para0)))"
proof -
  obtain chunks cur tok cid where st: "st = (chunks, cur, tok, cid)" by (cases st) auto
  show ?thesis unfolding st paragraph_body_texts by auto
qed

lemma paragraph_fold_keeps:
  "set (map c_text (fst st))
     \<subseteq> set (map c_text (fst (foldl (paragraph_body cfg md) st paragraphs)))"
proof (induction paragraphs arbitrary: st)
  case Nil
  then show ?case by simp
next
  case (Cons p ps)
  have "set (map c_text (fst st)) \<subseteq> set (map c_text (fst (paragraph_body cfg md st p)))"
    by (rule paragraph_body_keeps)
  also have "\<dots> \<subseteq> set (map c_text (fst (foldl (paragraph_body cfg md)
                                             (paragraph_body cfg md st p) ps)))"
    by (rule Cons.IH)
  finally show ?case by simp
qed

lemma paragraph_body_splits_long:
  assumes "py_strip para0 \<noteq> []" and "count_tokens_in_chunk (py_strip para0) > chunk_size cfg"
  shows "set (map c_text (chunk_fixed_size cfg (py_strip para0) md))
           \<subseteq> set (map c_text (fst (paragraph_body cfg md st para0)))"
proof -
  obtain chunks cur tok cid where st: "st = (chunks, cur, tok, cid)" by (cases st) auto
  show ?thesis unfolding st paragraph_body_texts using assms by auto
qed

lemma chunk_paragraph_fold:
  "set (map c_text (fst (foldl (paragraph_body cfg md) ([], [], 0, 0) (py_split_nn text))))
     \<subseteq> set (map c_text (chunk_paragraph cfg text md))"
proof -
  obtain chunks cur tok cid
    where st: "foldl (paragraph_body cfg md) ([], [], 0, 0) (py_split_nn text)
                 = (chunks, cur, tok, cid)"
    by (cases "foldl (paragraph_body cfg md) ([], [], 0, 0) (py_split_nn text)") auto
  show ?thesis
    by (auto simp: chunk_paragraph_def Let_def st)
qed

lemma chunk_paragraph_splits_long:
  assumes p: "p \<in> set (py_split_nn text)"
    and ne: "py_strip p \<noteq> []" and long: "count_tokens_in_chunk (py_strip p) > chunk_size cfg"
  shows "set (map c_text (chunk_fixed_size cfg (py_strip p) md))
           \<subseteq> set (map c_text (chunk_paragraph cfg text md))"
proof -
  from p obtain pre post where sp: "py_split_nn text = pre @ p # post"
    by (auto dest: split_list)
  let ?st = "foldl (paragraph_body cfg md) ([], [], 0, 0) pre"
  have "set (map c_text (chunk_fixed_size cfg (py_strip p) md))
          \<subseteq> set (map c_text (fst (paragraph_body cfg md ?st p)))"
    using ne long by (rule paragraph_body_splits_long)
  also have "\<dots> \<subseteq> set (map c_text (fst (foldl (paragraph_body cfg md)
                                             (paragraph_body cfg md ?st p) post)))"
    by (rule paragraph_fold_keeps)
  also have "foldl (paragraph_body cfg md) (paragraph_body cfg md ?st p) post
               = foldl (paragraph_body cfg md) ([], [], 0, 0) (py_split_nn text)"
    by (simp add: sp)
  also note chunk_paragraph_fold
  finally show ?thesis .
qed

section \<open>Facts about the context loop\<close>

lemma context_loop_prefix:
  "\<exists>n \<le> length chunks.
      context_loop max_tokens inc chunks parts tc
        = (parts @ map (format_chunk inc) (take n chunks),
           tc + sum_list (map chunk_tokens (take n chunks)))
    \<and> (\<forall>m < n. tc + sum_list (map chunk_tokens (take (Suc m) chunks)) \<le> max_tokens)
    \<and> (n < length chunks \<longrightarrow>
          tc + sum_list (map chunk_tokens (take n chunks)) + chunk_tokens (chunks ! n) > max_tokens)"
proof (induction chunks arbitrary: parts tc)
  case Nil
  then show ?case by simp
next
  case (Cons c chunks)
  show ?case
  proof (cases "tc + chunk_tokens c > max_tokens")
    case True
    then show ?thesis by (intro exI [of _ 0]) simp
  next
    case False
    from Cons.IH [of "parts @ [format_chunk inc c]" "tc + chunk_tokens c"]
    obtain n where n: "n \<le> length chunks"
      and eq: "context_loop max_tokens inc chunks (parts @ [format_chunk inc c]) (tc + chunk_tokens c)
        = ((parts @ [format_chunk inc c]) @ map (format_chunk inc) (take n chunks),
           (tc + chunk_tokens c) + sum_list (map chunk_tokens (take n chunks)))"
      and run: "\<forall>m < n. (tc + chunk_tokens c) + sum_list (map chunk_tokens (take (Suc m) chunks)) \<le> max_tokens"
      and stop: "n < length chunks \<longrightarrow>
          (tc + chunk_tokens c) + sum_list (map chunk_tokens (take n chunks)) + chunk_tokens (chunks ! n) > max_tokens"
      by blast
    have a: "context_loop max_tokens inc (c # chunks) parts tc
        = (parts @ map (format_chunk inc) (take (Suc n) (c # chunks)),
           tc + sum_list (map chunk_tokens (take (Suc n) (c # chunks))))"
      using False eq by simp
    have b: "\<forall>m < Suc n. tc + sum_list (map chunk_tokens (take (Suc m) (c # chunks))) \<le> max_tokens"
    proof (intro allI impI)
      fix m assume m: "m < Suc n"
      show "tc + sum_list (map chunk_tokens (take (Suc m) (c # chunks))) \<le> max_tokens"
      proof (cases m)
        case 0
        with False show ?thesis by simp
      next
        case (Suc m')
        with m run have "(tc + chunk_tokens c) + sum_list (map chunk_tokens (take (Suc m') chunks)) \<le> max_tokens"
          by simp
        with Suc show ?thesis by simp
      qed
    qed
    have c: "Suc n < length (c # chunks) \<longrightarrow>
          tc + sum_list (map chunk_tokens (take (Suc n) (c # chunks))) + chunk_tokens ((c # chunks) ! Suc n) > max_tokens"
      using stop by (simp add: add.assoc)
    from n a b c show ?thesis
      by (intro exI [of _ "Suc n"]) (simp del: take_Suc_Cons)
  qed
qed

lemma demo_tokens: "map chunk_tokens demo_results = [4, 9, 1]"
  by (simp add: demo_results_def chunk_tokens_def py_split_def py_isspace_def)

section \<open>Token estimator: truncation, not rounding\<close>

text \<open>
  C3 (as amended). For every string the estimator returns \<open>max(1, floor(word_count / 0.75))\<close>,
  that is \<open>max(1, (4 * word_count) div 3)\<close>, where \<open>word_count\<close> is the number of
  whitespace-separated words: the quotient is truncated, not rounded. The empty string
  yields 1.
\<close>

theorem estimate_tokens_truncates:
  "estimate_tokens text = max 1 \<lfloor>real (length (py_split text)) / 0.75\<rfloor>
   \<and> estimate_tokens text = max 1 ((4 * int (length (py_split text))) div 3)
   \<and> estimate_tokens [] = 1"
proof -
  have a: "estimate_tokens text = max 1 ((4 * int (length (py_split text))) div 3)"
    by (rule estimate_tokens_div)
  have "\<lfloor>real (length (py_split text)) / 0.75\<rfloor> = (4 * int (length (py_split text))) div 3"
    using floor_div_three_quarters [of "int (length (py_split text))"] by simp
  with a have b: "estimate_tokens text = max 1 \<lfloor>real (length (py_split text)) / 0.75\<rfloor>"
    by simp
  have c: "estimate_tokens [] = 1"
    by (simp add: estimate_tokens_div py_split_def)
  from a b c show ?thesis by blast
qed

theorem estimate_tokens_truncates_witness:
  "estimate_tokens ''to be or not'' = 5 \<and> estimate_tokens [] = 1"
  using estimate_tokens_truncates [of "''to be or not''"]
  by (simp add: py_split_def py_isspace_def)

text \<open>
  C3 as stated fails: on a text of two words the code returns 2, while
  \<open>max(1, round(2 / 0.75))\<close> is 3.
\<close>

theorem estimate_tokens_round_counterexample:
  "estimate_tokens ''a b'' = 2 \<and> estimate_rounded ''a b'' = 3
   \<and> estimate_tokens ''a b'' \<noteq> estimate_rounded ''a b''"
proof -
  have w: "py_split ''a b'' = [''a'', ''b'']"
    by (simp add: py_split_def py_isspace_def)
  have a: "estimate_tokens ''a b'' = 2"
    by (simp add: estimate_tokens_div w)
  have "round (real_of_int 2 / 0.75) = 3"
    by (simp add: round_def)
  then have b: "estimate_rounded ''a b'' = 3"
    by (simp add: estimate_rounded_def w)
  from a b show ?thesis by simp
qed

section \<open>Retrieval: threshold, bounds and failure\<close>

text \<open>
  C1. Every item of the list returned by \<open>retrieve\<close> has a similarity greater than or
  equal to the configured \<open>similarity_threshold\<close>; a candidate whose similarity is strictly
  below the threshold is not in the result.
\<close>

theorem retrieve_threshold:
  assumes "fst (retrieve r query charity_name top_k_arg) = Inr results"
  shows "(\<forall>x \<in> set results. similarity x \<ge> similarity_threshold (config r))
       \<and> (\<forall>c. similarity c < similarity_threshold (config r) \<longrightarrow> c \<notin> set results)"
proof -
  have a: "similarity x \<ge> similarity_threshold (config r)" if "x \<in> set results" for x
    using retrieve_results_subset [OF assms that] by auto
  then show ?thesis by fastforce
qed

theorem retrieve_threshold_witness:
  "fst (retrieve (demo_retriever 5 0.3) ''who'' None None)
     = Inr [\<lparr>rank = 3, r_text = ''delta'', similarity = 9 / 10, r_metadata = []\<rparr>,
            \<lparr>rank = 1, r_text = ''alpha'', similarity = 1 / 2, r_metadata = []\<rparr>]
   \<and> similarity \<lparr>rank = 3, r_text = ''delta'', similarity = 9 / 10, r_metadata = []\<rparr>
         \<ge> similarity_threshold (config (demo_retriever 5 0.3))
   \<and> similarity \<lparr>rank = 1, r_text = ''alpha'', similarity = 1 / 2, r_metadata = []\<rparr>
         \<ge> similarity_threshold (config (demo_retriever 5 0.3))"
proof -
  have h: "fst (retrieve (demo_retriever 5 0.3) ''who'' None None)
     = Inr [\<lparr>rank = 3, r_text = ''delta'', similarity = 9 / 10, r_metadata = []\<rparr>,
            \<lparr>rank = 1, r_text = ''alpha'', similarity = 1 / 2, r_metadata = []\<rparr>]"
    by (simp add: retrieve_cases fst_retrieve_ranked demo_retriever_def demo_generator_def
        resolve_collection_def requested_k_def demo_search ranked_def rerank_results_def
        py_prefix_def slice_index_def)
  from retrieve_threshold [OF h] h show ?thesis by simp
qed



text \<open>
  C7 (as amended). Let \<open>k\<close> be the per-call \<open>top_k\<close> when it is given and not zero, and the
  configured \<open>top_k\<close> otherwise. If \<open>k\<close> is not negative, \<open>retrieve\<close> returns at most \<open>k\<close>
  results; in every case it returns at most as many results as candidates are left
  after the threshold filter.
\<close>

theorem retrieve_top_k_bound:
  assumes "fst (retrieve r query charity_name top_k_arg) = Inr results"
  shows "(0 \<le> requested_k (config r) top_k_arg
            \<longrightarrow> int (length results) \<le> requested_k (config r) top_k_arg)
       \<and> (\<forall>qe db. embed_query (embedding_generator r) query = Inr qe
             \<and> resolve_collection (vector_db r) charity_name = Inr db
             \<longrightarrow> length results
                  \<le> length (filter (\<lambda>x. similarity x \<ge> similarity_threshold (config r))
                       (search db qe (requested_k (config r) top_k_arg * 2) charity_name 0)))"
proof (cases "embed_query (embedding_generator r) query")
  case (Inl e)
  with assms have "results = []" by (simp add: retrieve_cases)
  with Inl show ?thesis by simp
next
  case (Inr qe)
  note qe = this
  show ?thesis
  proof (cases "resolve_collection (vector_db r) charity_name")
    case (Inl e)
    with assms qe have "results = []" by (simp add: retrieve_cases)
    with Inl show ?thesis by simp
  next
    case (Inr db)
    with assms qe have res: "results = py_prefix (ranked (config r)
        (filter (\<lambda>x. similarity x \<ge> similarity_threshold (config r))
           (search db qe (requested_k (config r) top_k_arg * 2) charity_name 0)) qe)
        (requested_k (config r) top_k_arg)"
      by (simp add: retrieve_cases fst_retrieve_ranked)
    have a: "0 \<le> requested_k (config r) top_k_arg
            \<longrightarrow> int (length results) \<le> requested_k (config r) top_k_arg"
      unfolding res using length_py_prefix_nonneg by blast
    have "length results \<le> length (filter (\<lambda>x. similarity x \<ge> similarity_threshold (config r))
           (search db qe (requested_k (config r) top_k_arg * 2) charity_name 0))"
      unfolding res using length_py_prefix [of "ranked (config r)
        (filter (\<lambda>x. similarity x \<ge> similarity_threshold (config r))
           (search db qe (requested_k (config r) top_k_arg * 2) charity_name 0)) qe"]
      by simp
    with a qe Inr show ?thesis by simp
  qed
qed

theorem retrieve_top_k_bound_witness:
  "fst (retrieve (demo_retriever 1 0.3) ''who'' None None)
     = Inr [\<lparr>rank = 1, r_text = ''alpha'', similarity = 1 / 2, r_metadata = []\<rparr>]
   \<and> int (length [\<lparr>rank = 1, r_text = ''alpha'', similarity = 1 / 2, r_metadata = []\<rparr>]) \<le> 1"
proof -
  have h: "fst (retrieve (demo_retriever 1 0.3) ''who'' None None)
     = Inr [\<lparr>rank = 1, r_text = ''alpha'', similarity = 1 / 2, r_metadata = []\<rparr>]"
    by (simp add: retrieve_cases fst_retrieve_ranked demo_retriever_def demo_generator_def
        resolve_collection_def requested_k_def search_def demo_db_def demo_collection_def
        truthy_def Let_def ranked_def rerank_results_def py_prefix_def slice_index_def)
  from retrieve_top_k_bound [OF h] h show ?thesis
    by (simp add: requested_k_def demo_retriever_def)
qed

text \<open>
  C7 as stated fails: with the per-call argument 0 the configured \<open>top_k = 5\<close> is used and
  two results come back, more than 0; with the per-call argument \<open>-1\<close> the empty list has
  more than \<open>-1\<close> items.
\<close>

theorem retrieve_top_k_counterexample:
  "stated_k (config (demo_retriever 5 0.3)) (Some 0) = 0
   \<and> length (result_list (fst (retrieve (demo_retriever 5 0.3) ''who'' None (Some 0)))) = 2
   \<and> \<not> int (length (result_list (fst (retrieve (demo_retriever 5 0.3) ''who'' None (Some 0)))))
         \<le> stated_k (config (demo_retriever 5 0.3)) (Some 0)
   \<and> \<not> int (length (result_list (fst (retrieve (demo_retriever 5 0.3) ''who'' None (Some (- 1))))))
         \<le> stated_k (config (demo_retriever 5 0.3)) (Some (- 1))"
proof -
  have a: "length (result_list (fst (retrieve (demo_retriever 5 0.3) ''who'' None (Some 0)))) = 2"
    by (simp add: retrieve_cases fst_retrieve_ranked demo_retriever_def demo_generator_def
        resolve_collection_def requested_k_def demo_search ranked_def rerank_results_def
        py_prefix_def slice_index_def result_list_def)
  have b: "length (result_list (fst (retrieve (demo_retriever 5 0.3) ''who'' None (Some (- 1))))) = 0"
    by (simp add: retrieve_cases fst_retrieve_ranked demo_retriever_def demo_generator_def
        resolve_collection_def requested_k_def search_def demo_db_def demo_collection_def
        truthy_def Let_def ranked_def py_prefix_def slice_index_def result_list_def)
  show ?thesis unfolding a b by (simp add: stated_k_def)
qed

text \<open>
  C8 (as amended). If \<open>retrieve\<close> is called with a non-empty \<open>charity_name\<close> whose
  normalised collection name does not exist in the vector database, it returns the empty
  list without raising, the selected collection stays as it was, and when the query
  embedding succeeded nothing else of the retriever changes either (no search is run).
\<close>

theorem retrieve_missing_collection:
  assumes "name \<noteq> []" and "client (vector_db r) (collection_name name) = None"
  shows "fst (retrieve r query (Some name) top_k_arg) = Inr []
       \<and> vector_db (snd (retrieve r query (Some name) top_k_arg)) = vector_db r
       \<and> (\<forall>qe. embed_query (embedding_generator r) query = Inr qe
             \<longrightarrow> retrieve r query (Some name) top_k_arg = (Inr [], r))"
proof -
  from assms have res: "resolve_collection (vector_db r) (Some name)
      = Inl (ValueError (''Collection '' @ collection_name name @ '' does not exist.''))"
    by (simp add: resolve_collection_def get_collection_def)
  show ?thesis
    by (cases "embed_query (embedding_generator r) query")
       (simp_all add: retrieve_def Let_def res)
qed

theorem retrieve_missing_collection_witness:
  "''Oxfam'' \<noteq> [] \<and> client (vector_db (demo_retriever 5 0.3)) (collection_name ''Oxfam'') = None
   \<and> retrieve (demo_retriever 5 0.3) ''who'' (Some ''Oxfam'') None
       = (Inr [], demo_retriever 5 0.3)"
proof -
  have n: "collection_name ''Oxfam'' = ''oxfam''" by code_simp
  have a: "''Oxfam'' \<noteq> []" by simp
  have b: "client (vector_db (demo_retriever 5 0.3)) (collection_name ''Oxfam'') = None"
    by (simp add: n demo_retriever_def demo_db_def)
  have c: "embed_query (embedding_generator (demo_retriever 5 0.3)) ''who'' = Inr [1, 0]"
    by (simp add: demo_retriever_def demo_generator_def)
  from retrieve_missing_collection [OF a b, of "''who''" None] a b c show ?thesis by blast
qed

text \<open>
  C8 as stated fails for the empty \<open>charity_name\<close>: no collection has its normalised name,
  yet \<open>if charity_name:\<close> skips the lookup and the results of the collection selected
  before the call come back.
\<close>

theorem retrieve_empty_name_counterexample:
  "client (vector_db (demo_retriever 5 0.3)) (collection_name []) = None
   \<and> fst (retrieve (demo_retriever 5 0.3) ''who'' (Some []) None)
       = Inr [\<lparr>rank = 3, r_text = ''delta'', similarity = 9 / 10, r_metadata = []\<rparr>,
              \<lparr>rank = 1, r_text = ''alpha'', similarity = 1 / 2, r_metadata = []\<rparr>]
   \<and> fst (retrieve (demo_retriever 5 0.3) ''who'' (Some []) None) \<noteq> Inr []"
proof -
  have a: "client (vector_db (demo_retriever 5 0.3)) (collection_name []) = None"
    by (simp add: collection_name_def demo_retriever_def demo_db_def)
  have b: "fst (retrieve (demo_retriever 5 0.3) ''who'' (Some []) None)
       = Inr [\<lparr>rank = 3, r_text = ''delta'', similarity = 9 / 10, r_metadata = []\<rparr>,
              \<lparr>rank = 1, r_text = ''alpha'', similarity = 1 / 2, r_metadata = []\<rparr>]"
    by (simp add: retrieve_cases fst_retrieve_ranked demo_retriever_def demo_generator_def
        resolve_collection_def requested_k_def search_def demo_db_def demo_collection_def
        truthy_def Let_def ranked_def rerank_results_def py_prefix_def slice_index_def)
  from a b show ?thesis by simp
qed

text \<open>
  C10. \<open>search\<close> returns only items whose similarity, one minus a reported distance, is at
  least its \<open>threshold\<close> argument; the results of \<open>retrieve\<close> are drawn from a \<open>search\<close>
  with threshold 0; so \<open>retrieve\<close> never returns an item of negative similarity,
  whatever the configured \<open>similarity_threshold\<close>.
\<close>

theorem retrieve_nonnegative_similarity:
  "(\<forall>x \<in> set (search db qe n name threshold).
       threshold \<le> similarity x
       \<and> (\<exists>coll res. collection db = Some coll
             \<and> coll qe n (if truthy name then name else None) = Inr res
             \<and> (\<exists>d \<in> set (distances res). similarity x = 1 - d)))
   \<and> set (fst (retrieve_ranked r db' lg qe name k)) \<subseteq> set (search db' qe (k * 2) name 0)
   \<and> (\<forall>results. fst (retrieve r query charity_name top_k_arg) = Inr results
         \<longrightarrow> (\<forall>x \<in> set results. 0 \<le> similarity x))"
proof (intro conjI ballI allI impI)
  fix x assume "x \<in> set (search db qe n name threshold)"
  then show "threshold \<le> similarity x" by (rule search_threshold)
next
  fix x assume "x \<in> set (search db qe n name threshold)"
  then show "\<exists>coll res. collection db = Some coll
             \<and> coll qe n (if truthy name then name else None) = Inr res
             \<and> (\<exists>d \<in> set (distances res). similarity x = 1 - d)"
    by (rule search_distance)
next
  show "set (fst (retrieve_ranked r db' lg qe name k)) \<subseteq> set (search db' qe (k * 2) name 0)"
    by (auto simp: fst_retrieve_ranked dest: in_set_py_prefix)
next
  fix results x
  assume a: "fst (retrieve r query charity_name top_k_arg) = Inr results" and b: "x \<in> set results"
  from retrieve_results_subset [OF a b] show "0 \<le> similarity x"
    by (auto dest: search_threshold)
qed

theorem retrieve_nonnegative_similarity_witness:
  "similarity_threshold (config (demo_retriever 5 (- 0.5))) = - 0.5
   \<and> fst (retrieve (demo_retriever 5 (- 0.5)) ''who'' None None)
       = Inr [\<lparr>rank = 3, r_text = ''delta'', similarity = 9 / 10, r_metadata = []\<rparr>,
              \<lparr>rank = 1, r_text = ''alpha'', similarity = 1 / 2, r_metadata = []\<rparr>]
   \<and> 0 \<le> similarity \<lparr>rank = 3, r_text = ''delta'', similarity = 9 / 10, r_metadata = []\<rparr>
   \<and> 0 \<le> similarity \<lparr>rank = 1, r_text = ''alpha'', similarity = 1 / 2, r_metadata = []\<rparr>"
proof -
  have h: "fst (retrieve (demo_retriever 5 (- 0.5)) ''who'' None None)
       = Inr [\<lparr>rank = 3, r_text = ''delta'', similarity = 9 / 10, r_metadata = []\<rparr>,
              \<lparr>rank = 1, r_text = ''alpha'', similarity = 1 / 2, r_metadata = []\<rparr>]"
    by (simp add: retrieve_cases fst_retrieve_ranked demo_retriever_def demo_generator_def
        resolve_collection_def requested_k_def search_def demo_db_def demo_collection_def
        truthy_def Let_def ranked_def rerank_results_def py_prefix_def slice_index_def)
  have t: "similarity_threshold (config (demo_retriever 5 (- 0.5))) = - 0.5"
    by (simp add: demo_retriever_def)
  from retrieve_nonnegative_similarity
         [of "vector_db (demo_retriever 5 (- 0.5))" "[1, 0]" 10 None 0
             "demo_retriever 5 (- 0.5)" "vector_db (demo_retriever 5 (- 0.5))" Map.empty 5
             "''who''" None None] h t
  show ?thesis by simp
qed

section \<open>Chunking: budget and termination\<close>

text \<open>
  C4 (as amended). For a chunk size that is not negative, every chunk produced by the
  fixed or the paragraph strategy has a \<open>token_count\<close> of at most \<open>max(1, chunk_size)\<close>
  (an overrun of one token, at \<open>chunk_size = 0\<close> only), and every chunk of the fixed
  strategy has at least \<open>min_chunk_size\<close> tokens. A paragraph whose own token count
  exceeds \<open>chunk_size\<close> is split by the fixed strategy, and the text of each chunk the
  fixed strategy makes of it is the text of a chunk of the document; the windows of fewer
  than \<open>min_chunk_size\<close> tokens are not chunks, so words of the paragraph can be lost.
\<close>

theorem chunk_token_bound:
  assumes "0 \<le> chunk_size cfg"
  shows "(\<forall>c \<in> set (chunk_fixed_size cfg text md).
            c_token_count c \<le> max 1 (chunk_size cfg) \<and> min_chunk_size cfg \<le> c_token_count c)
       \<and> (\<forall>c \<in> set (chunk_paragraph cfg text md). c_token_count c \<le> max 1 (chunk_size cfg))
       \<and> (\<forall>p \<in> set (py_split_nn text).
            py_strip p \<noteq> [] \<and> estimate_tokens (py_strip p) > chunk_size cfg
            \<longrightarrow> set (map c_text (chunk_fixed_size cfg (py_strip p) md))
                  \<subseteq> set (map c_text (chunk_paragraph cfg text md)))"
proof -
  have a: "\<forall>c \<in> set (chunk_fixed_size cfg text md).
            c_token_count c \<le> max 1 (chunk_size cfg) \<and> min_chunk_size cfg \<le> c_token_count c"
    using chunk_fixed_size_within [OF assms] by (simp add: in_budget_def)
  have b: "\<forall>c \<in> set (chunk_paragraph cfg text md). c_token_count c \<le> max 1 (chunk_size cfg)"
    using chunk_paragraph_within [OF assms] by (simp add: in_budget_def)
  have c: "\<forall>p \<in> set (py_split_nn text).
            py_strip p \<noteq> [] \<and> estimate_tokens (py_strip p) > chunk_size cfg
            \<longrightarrow> set (map c_text (chunk_fixed_size cfg (py_strip p) md))
                  \<subseteq> set (map c_text (chunk_paragraph cfg text md))"
  proof (intro ballI impI)
    fix p
    assume "p \<in> set (py_split_nn text)"
      and "py_strip p \<noteq> [] \<and> estimate_tokens (py_strip p) > chunk_size cfg"
    then show "set (map c_text (chunk_fixed_size cfg (py_strip p) md))
                  \<subseteq> set (map c_text (chunk_paragraph cfg text md))"
      by (intro chunk_paragraph_splits_long) (simp_all add: count_tokens_in_chunk_def)
  qed
  from a b c show ?thesis by (intro conjI)
qed

theorem chunk_token_bound_witness:
  "0 \<le> chunk_size (demo_chunk_config 8 0 2)
   \<and> map c_token_count (chunk_paragraph (demo_chunk_config 8 0 2) demo_document None) = [2, 8, 2, 1]
   \<and> ''a b c d e f g h'' \<in> set (py_split_nn demo_document)
   \<and> chunk_size (demo_chunk_config 8 0 2) < estimate_tokens (py_strip ''a b c d e f g h'')
   \<and> map c_text (chunk_fixed_size (demo_chunk_config 8 0 2) (py_strip ''a b c d e f g h'') None)
        = [''a b c d e f'', ''g h'']
   \<and> set [''a b c d e f'', ''g h'']
        \<subseteq> set (map c_text (chunk_paragraph (demo_chunk_config 8 0 2) demo_document None))"
proof -
  have h: "0 \<le> chunk_size (demo_chunk_config 8 0 2)" by (simp add: demo_chunk_config_def)
  have t: "map c_token_count (chunk_paragraph (demo_chunk_config 8 0 2) demo_document None) = [2, 8, 2, 1]"
    by code_simp
  have p: "''a b c d e f g h'' \<in> set (py_split_nn demo_document)"
    by code_simp
  have s: "py_strip ''a b c d e f g h'' \<noteq> []" by code_simp
  have e: "chunk_size (demo_chunk_config 8 0 2) < estimate_tokens (py_strip ''a b c d e f g h'')"
    by code_simp
  have f: "map c_text (chunk_fixed_size (demo_chunk_config 8 0 2) (py_strip ''a b c d e f g h'') None)
        = [''a b c d e f'', ''g h'']"
    by code_simp
  from chunk_token_bound [OF h, of demo_document None] p s e
  have "set (map c_text (chunk_fixed_size (demo_chunk_config 8 0 2) (py_strip ''a b c d e f g h'') None))
        \<subseteq> set (map c_text (chunk_paragraph (demo_chunk_config 8 0 2) demo_document None))"
    by blast
  with h t p e f show ?thesis by simp
qed

text \<open>
  C4 as stated fails: with \<open>chunk_size = 4\<close> and the default \<open>min_chunk_size = 100\<close> a
  paragraph of six words (8 tokens) yields no chunk at all, and with \<open>chunk_size = 8\<close>,
  \<open>min_chunk_size = 4\<close> the last two words of a paragraph of eight words are in no chunk.
\<close>

theorem paragraph_text_dropped_counterexample:
  "chunk_size (demo_chunk_config 4 0 100) < estimate_tokens (py_strip ''a b c d e f'')
   \<and> chunk_paragraph (demo_chunk_config 4 0 100) ''a b c d e f'' None = []
   \<and> chunk_size (demo_chunk_config 8 0 4) < estimate_tokens (py_strip ''a b c d e f g h'')
   \<and> map c_text (chunk_paragraph (demo_chunk_config 8 0 4) ''a b c d e f g h'' None)
        = [''a b c d e f'']"
  by code_simp

text \<open>
  C6. Fixed-strategy chunking terminates for every text and every configuration: the loop
  returns within \<open>len(words)\<close> passes, because a pass that does not leave the loop moves
  \<open>start_idx\<close> forward by at least one word, and a pass leaves the loop by \<open>break\<close> only
  when the window has reached the end of the input.
\<close>

theorem fixed_chunking_terminates:
  "fixed_run (length (py_split text)) cfg md (py_split text) 0 0 []
     = Some (chunk_fixed_size cfg text md)
   \<and> (\<forall>words start_idx chunk_id chunks start_idx' chunk_id' chunks'.
         fixed_body cfg md words start_idx chunk_id chunks = Inl (start_idx', chunk_id', chunks')
         \<longrightarrow> start_idx + 1 \<le> start_idx')
   \<and> (\<forall>words start_idx chunk_id chunks finished.
         fixed_body cfg md words start_idx chunk_id chunks = Inr finished
         \<longrightarrow> min (start_idx + words_per_chunk cfg) (int (length words)) = int (length words))"
proof -
  have "fixed_run (length (py_split text)) cfg md (py_split text) 0 0 []
     = Some (chunk_fixed_size cfg text md)"
    unfolding chunk_fixed_size_def by (rule fixed_run_enough) simp
  then show ?thesis
    using fixed_body_advances fixed_body_breaks by blast
qed

theorem fixed_chunking_terminates_witness:
  "fixed_run (length (py_split ''   '')) (demo_chunk_config 512 50 1) None (py_split ''   '') 0 0 []
     = Some []
   \<and> chunk_fixed_size (demo_chunk_config 512 50 1) ''   '' None = []
   \<and> chunk_fixed_size (demo_chunk_config 512 50 1) ''word'' None
       = [\<lparr>c_id = ''chunk_0'', c_text = ''word'', c_start_idx = Some 0, c_end_idx = Some 1,
           c_token_count = 1, c_metadata = []\<rparr>]
   \<and> fixed_body (demo_chunk_config 512 50 1) None [''word''] 0 0 []
       = Inl (1, 1, [\<lparr>c_id = ''chunk_0'', c_text = ''word'', c_start_idx = Some 0,
                       c_end_idx = Some 1, c_token_count = 1, c_metadata = []\<rparr>])
   \<and> (0::int) + 1 \<le> 1"
proof -
  have a: "fixed_run (length (py_split ''   '')) (demo_chunk_config 512 50 1) None (py_split ''   '') 0 0 []
     = Some []"
    by code_simp
  have b: "fixed_run (length (py_split ''word'')) (demo_chunk_config 512 50 1) None (py_split ''word'') 0 0 []
     = Some [\<lparr>c_id = ''chunk_0'', c_text = ''word'', c_start_idx = Some 0, c_end_idx = Some 1,
           c_token_count = 1, c_metadata = []\<rparr>]"
    by code_simp
  have c: "fixed_body (demo_chunk_config 512 50 1) None [''word''] 0 0 []
       = Inl (1, 1, [\<lparr>c_id = ''chunk_0'', c_text = ''word'', c_start_idx = Some 0,
                       c_end_idx = Some 1, c_token_count = 1, c_metadata = []\<rparr>])"
    by code_simp
  from fixed_chunking_terminates [of "''   ''" "demo_chunk_config 512 50 1" None]
       fixed_chunking_terminates [of "''word''" "demo_chunk_config 512 50 1" None] a b c
  show ?thesis by simp
qed

section \<open>Context builder: order and budget\<close>

text \<open>
  C2 (as amended). \<open>build_context\<close> includes a prefix of the results, in the order given
  and each chunk whole: it stops at the first chunk whose estimated token count added to
  the running total would exceed \<open>max_tokens\<close>, and takes no later chunk in its place. The
  running total never exceeds \<open>max_tokens\<close> after a chunk is included, and for
  \<open>max_tokens \<ge> 0\<close> the total of the included chunks is at most \<open>max_tokens\<close>.
\<close>

theorem build_context_budget:
  "\<exists>n \<le> length chunks.
      context_loop max_tokens include_sources chunks [] 0
        = (map (format_chunk include_sources) (take n chunks),
           sum_list (map chunk_tokens (take n chunks)))
    \<and> (chunks \<noteq> [] \<longrightarrow>
          build_context chunks max_tokens include_sources
            = py_join context_separator (map (format_chunk include_sources) (take n chunks)))
    \<and> (n < length chunks \<longrightarrow>
          sum_list (map chunk_tokens (take n chunks)) + chunk_tokens (chunks ! n) > max_tokens)
    \<and> (\<forall>m < n. sum_list (map chunk_tokens (take (Suc m) chunks)) \<le> max_tokens)
    \<and> (0 \<le> max_tokens \<longrightarrow> sum_list (map chunk_tokens (take n chunks)) \<le> max_tokens)"
proof -
  from context_loop_prefix [of chunks max_tokens include_sources "[]" 0]
  obtain n where n: "n \<le> length chunks"
    and eq: "context_loop max_tokens include_sources chunks [] 0
        = (map (format_chunk include_sources) (take n chunks),
           sum_list (map chunk_tokens (take n chunks)))"
    and run: "\<forall>m < n. sum_list (map chunk_tokens (take (Suc m) chunks)) \<le> max_tokens"
    and stop: "n < length chunks \<longrightarrow>
          sum_list (map chunk_tokens (take n chunks)) + chunk_tokens (chunks ! n) > max_tokens"
    by auto
  have b: "chunks \<noteq> [] \<longrightarrow>
          build_context chunks max_tokens include_sources
            = py_join context_separator (map (format_chunk include_sources) (take n chunks))"
    by (simp add: build_context_def eq context_separator_def)
  have t: "0 \<le> max_tokens \<longrightarrow> sum_list (map chunk_tokens (take n chunks)) \<le> max_tokens"
  proof (cases n)
    case 0
    then show ?thesis by simp
  next
    case (Suc m)
    with run have "sum_list (map chunk_tokens (take (Suc m) chunks)) \<le> max_tokens" by simp
    with Suc show ?thesis by simp
  qed
  from n eq b stop run t show ?thesis by blast
qed

theorem build_context_budget_witness:
  "(0::int) \<le> 6 \<and> demo_results \<noteq> []
   \<and> context_loop 6 True demo_results [] 0
        = ([''we feed people'' @ [CHR 0x0A] @ ''[Source: Food Bank]'' @ [CHR 0x0A]], 4)
   \<and> snd (context_loop 6 True demo_results [] 0) \<le> 6
   \<and> build_context demo_results 6 True
        = ''we feed people'' @ [CHR 0x0A] @ ''[Source: Food Bank]'' @ [CHR 0x0A]"
proof -
  have t: "chunk_tokens (demo_results ! 0) = 4" "chunk_tokens (demo_results ! 1) = 9"
    using demo_tokens by (simp_all add: demo_results_def)
  have l: "context_loop 6 True demo_results [] 0
        = ([''we feed people'' @ [CHR 0x0A] @ ''[Source: Food Bank]'' @ [CHR 0x0A]], 4)"
    using t by (simp add: demo_results_def format_chunk_def metadata_get_def)
  from build_context_budget [of demo_results 6 True]
  obtain n where eq: "context_loop 6 True demo_results [] 0
        = (map (format_chunk True) (take n demo_results),
           sum_list (map chunk_tokens (take n demo_results)))"
    and le: "sum_list (map chunk_tokens (take n demo_results)) \<le> 6"
    by auto
  from eq le have "snd (context_loop 6 True demo_results [] 0) \<le> 6" by simp
  moreover have "demo_results \<noteq> []" by (simp add: demo_results_def)
  moreover have "build_context demo_results 6 True
        = ''we feed people'' @ [CHR 0x0A] @ ''[Source: Food Bank]'' @ [CHR 0x0A]"
    by (simp add: build_context_def l) (simp add: demo_results_def)
  ultimately show ?thesis using l by simp
qed

text \<open>
  C2 as stated fails for a negative \<open>max_tokens\<close>: nothing is included, and the total 0 of
  the included chunks exceeds \<open>max_tokens = -1\<close>.
\<close>

theorem build_context_negative_budget_counterexample:
  "context_loop (- 1) True demo_results [] 0 = ([], 0)
   \<and> \<not> snd (context_loop (- 1) True demo_results [] 0) \<le> - 1"
proof -
  have t: "chunk_tokens (demo_results ! 0) = 4"
    using demo_tokens by (simp add: demo_results_def)
  then have "context_loop (- 1) True demo_results [] 0 = ([], 0)"
    by (simp add: demo_results_def)
  then show ?thesis by simp
qed

section \<open>Cosine similarity: the guarded division\<close>

text \<open>
  C9. For two vectors of the same length \<open>cosine_similarity\<close> returns their dot product
  divided by the product of their norms, except that it returns 0 when one of the norms
  is zero; the division is never carried out with a zero divisor. (Over the reals: the
  rounding of floating-point arithmetic is not modelled.)
\<close>

theorem cosine_similarity_guarded:
  "(length vec1 = length vec2 \<longrightarrow>
      cosine_similarity vec1 vec2 =
        Inr (if np_linalg_norm vec1 = 0 \<or> np_linalg_norm vec2 = 0 then 0
             else (\<Sum>(a, b) \<leftarrow> zip vec1 vec2. a * b)
                    / (np_linalg_norm vec1 * np_linalg_norm vec2)))
   \<and> cosine_similarity vec1 vec2 \<noteq> Inl ZeroDivisionError"
  by (simp add: cosine_similarity_def np_dot_def checked_div_def Let_def)

theorem cosine_similarity_guarded_witness:
  "length [1, 0 :: real] = length [1, 0 :: real]
   \<and> cosine_similarity [1, 0] [1, 0] = Inr 1
   \<and> cosine_similarity [1, 0] [0, 0] = Inr 0"
  using cosine_similarity_guarded [of "[1, 0]" "[1, 0]"] cosine_similarity_guarded [of "[1, 0]" "[0, 0]"]
  by (simp add: np_linalg_norm_def)

end
